theory Spec2Isabelle
  imports Complex_Main
begin

section \<open>Python strings\<close>

text \<open>
  A Python \<^verbatim>\<open>str\<close> is a sequence of Unicode code points, so a string is a list of
  code points. The cells of the portal's table hold Chinese text, and the sort
  preference is compared with a Chinese literal, so 8-bit characters would not do.
  \<open>str\<close> embeds an ASCII literal.
\<close>

type_synonym pystr = "nat list"

definition str :: "string \<Rightarrow> pystr" where
  "str s = map of_char s"

text \<open>
  \<^verbatim>\<open>str.isspace\<close> on one code point: the code points Python treats as whitespace
  in \<^verbatim>\<open>split()\<close> and \<^verbatim>\<open>strip()\<close> without arguments.
\<close>

definition py_isspace :: "nat \<Rightarrow> bool" where
  "py_isspace c =
     ((9 \<le> c \<and> c \<le> 13) \<or> (28 \<le> c \<and> c \<le> 32) \<or> c = 133 \<or> c = 160 \<or> c = 5760
      \<or> (8192 \<le> c \<and> c \<le> 8202) \<or> c = 8232 \<or> c = 8233 \<or> c = 8239 \<or> c = 8287
      \<or> c = 12288)"

text \<open>\<^verbatim>\<open>s.strip()\<close>: whitespace removed at both ends.\<close>

definition py_strip :: "pystr \<Rightarrow> pystr" where
  "py_strip s = rev (dropWhile py_isspace (rev (dropWhile py_isspace s)))"

text \<open>
  \<^verbatim>\<open>s.split()\<close>: the maximal runs of non-whitespace, in order. \<open>split_from w s\<close>
  scans \<open>s\<close> from the left with the word \<open>w\<close> read so far.
\<close>

fun split_from :: "pystr \<Rightarrow> pystr \<Rightarrow> pystr list" where
  "split_from w [] = (if w = [] then [] else [w])"
| "split_from w (c # cs) =
     (if py_isspace c
      then (if w = [] then split_from [] cs else w # split_from [] cs)
      else split_from (w @ [c]) cs)"

definition py_split :: "pystr \<Rightarrow> pystr list" where
  "py_split s = split_from [] s"

text \<open>\<^verbatim>\<open>sep.join(ws)\<close>.\<close>

fun py_join :: "pystr \<Rightarrow> pystr list \<Rightarrow> pystr" where
  "py_join sep [] = []"
| "py_join sep [w] = w"
| "py_join sep (w # v # ws) = w @ sep @ py_join sep (v # ws)"

text \<open>
  \<^verbatim>\<open>get_clean_text\<close> reads a cell's inner text and returns
  \<^verbatim>\<open>' '.join(text.split()).strip()\<close>; the argument here is the inner text.
\<close>

definition get_clean_text :: "pystr \<Rightarrow> pystr" where
  "get_clean_text t = py_strip (py_join (str '' '') (py_split t))"

text \<open>
  \<^verbatim>\<open>str.isdigit\<close> and \<^verbatim>\<open>int\<close>. A character is a digit for
  \<^verbatim>\<open>isdigit\<close> when its Unicode numeric type is Decimal or Digit; \<^verbatim>\<open>int\<close>
  reads the Decimal ones only. The tables are those of Unicode 14.0 (CPython 3.11) as
  ranges of code points: every Decimal range starts at a digit zero and runs through the
  ten digits in order (the range from 120782 holds five such runs).
\<close>

definition decimal_ranges :: "(nat \<times> nat) list" where
  "decimal_ranges =
    [(48, 57), (1632, 1641), (1776, 1785), (1984, 1993), (2406, 2415), (2534, 2543),
     (2662, 2671), (2790, 2799), (2918, 2927), (3046, 3055), (3174, 3183), (3302, 3311),
     (3430, 3439), (3558, 3567), (3664, 3673), (3792, 3801), (3872, 3881), (4160, 4169),
     (4240, 4249), (6112, 6121), (6160, 6169), (6470, 6479), (6608, 6617), (6784, 6793),
     (6800, 6809), (6992, 7001), (7088, 7097), (7232, 7241), (7248, 7257), (42528, 42537),
     (43216, 43225), (43264, 43273), (43472, 43481), (43504, 43513), (43600, 43609),
     (44016, 44025), (65296, 65305), (66720, 66729), (68912, 68921), (69734, 69743),
     (69872, 69881), (69942, 69951), (70096, 70105), (70384, 70393), (70736, 70745),
     (70864, 70873), (71248, 71257), (71360, 71369), (71472, 71481), (71904, 71913),
     (72016, 72025), (72784, 72793), (73040, 73049), (73120, 73129), (92768, 92777),
     (92864, 92873), (93008, 93017), (120782, 120831), (123200, 123209), (123632, 123641),
     (125264, 125273), (130032, 130041)]"

definition other_digit_ranges :: "(nat \<times> nat) list" where
  "other_digit_ranges =
    [(178, 179), (185, 185), (4969, 4977), (6618, 6618), (8304, 8304), (8308, 8313),
     (8320, 8329), (9312, 9320), (9332, 9340), (9352, 9360), (9450, 9450), (9461, 9469),
     (9471, 9471), (10102, 10110), (10112, 10120), (10122, 10130), (68160, 68163),
     (69216, 69224), (69714, 69722), (127232, 127242)]"

definition in_range :: "nat \<Rightarrow> nat \<times> nat \<Rightarrow> bool" where
  "in_range c r = (fst r \<le> c \<and> c \<le> snd r)"

text \<open>The value of a Decimal digit, \<open>None\<close> for any other character.\<close>

definition py_decimal :: "nat \<Rightarrow> nat option" where
  "py_decimal c = map_option (\<lambda>r. (c - fst r) mod 10) (find (in_range c) decimal_ranges)"

definition py_isdigit_char :: "nat \<Rightarrow> bool" where
  "py_isdigit_char c = (list_ex (in_range c) decimal_ranges \<or> list_ex (in_range c) other_digit_ranges)"

text \<open>\<^verbatim>\<open>s.isdigit()\<close>: at least one character, and all of them digits.\<close>

definition py_isdigit :: "pystr \<Rightarrow> bool" where
  "py_isdigit s = (s \<noteq> [] \<and> list_all py_isdigit_char s)"

datatype error = TimeoutError | PlaywrightError | ValueError | OverflowError

text \<open>
  \<^verbatim>\<open>int(s)\<close> on the strings that reach it in this program, those for which
  \<^verbatim>\<open>s.isdigit()\<close> holds: no sign, blank or underscore occurs in them, and
  \<^verbatim>\<open>int\<close> raises \<^verbatim>\<open>ValueError\<close> at the first character that is not a Decimal
  digit. (The interpreter's limit on the number of digits it converts is left out.)
\<close>

fun digits_value :: "nat \<Rightarrow> pystr \<Rightarrow> nat option" where
  "digits_value a [] = Some a"
| "digits_value a (c # cs) =
     (case py_decimal c of None \<Rightarrow> None | Some d \<Rightarrow> digits_value (10 * a + d) cs)"

definition py_int :: "pystr \<Rightarrow> error + int" where
  "py_int s = (case digits_value 0 s of None \<Rightarrow> Inl ValueError | Some n \<Rightarrow> Inr (int n))"

text \<open>\<^verbatim>\<open>str(i)\<close> for an integer: its decimal digits, after a minus sign when negative.\<close>

fun nat_digits :: "nat \<Rightarrow> pystr" where
  "nat_digits n = (if n < 10 then [48 + n] else nat_digits (n div 10) @ [48 + n mod 10])"

declare nat_digits.simps [simp del]

definition py_str_int :: "int \<Rightarrow> pystr" where
  "py_str_int i = (if i < 0 then 45 # nat_digits (nat (- i)) else nat_digits (nat i))"

text \<open>A word of a split: not empty and free of whitespace.\<close>

definition word_ok :: "pystr \<Rightarrow> bool" where
  "word_ok w = (w \<noteq> [] \<and> list_all (\<lambda>c. \<not> py_isspace c) w)"

section \<open>Rows, row handles and the row validator\<close>

text \<open>
  The dictionary \<^verbatim>\<open>row_data\<close> always has the same eight keys, each with a string:
  a record, one field per key.
\<close>

record indicator_row =
  r_time :: pystr
  r_region :: pystr
  r_indicator :: pystr
  r_value :: pystr
  r_unit :: pystr
  r_source :: pystr
  r_page_no :: pystr
  r_download_url :: pystr

text \<open>
  What the program prints, and what it does to the browser and the database
  connection, in order.
\<close>

datatype event =
    BrowserLaunched
  | BrowserClosed
  | Processing nat int
  | SortClicking
  | SortNotFound
  | SortError error
  | NoMorePages nat
  | DownloadFailed pystr error
  | ValidatorFound nat nat
  | DbInitialised
  | DbConnect
  | DbCommit
  | DbInserted nat
  | DbWriteError
  | DbClose
  | TasksFileMissing
  | TaskStarted nat
  | TaskParsed nat
  | TaskError nat error
  | AllTasksCompleted

text \<open>
  A row handle is what the browser answers for it. \<open>bounding_box\<close> is the result of
  \<^verbatim>\<open>row_handle.bounding_box()\<close> (\<open>None\<close> when the row is not rendered), \<open>cells\<close>
  the inner texts of its \<^verbatim>\<open>td\<close> elements, \<open>excel_icon\<close> the result of querying the
  download icon: \<open>None\<close> when the row has none, otherwise what clicking it leads to.
  The try block around the click covers \<^verbatim>\<open>expect_download\<close>, the click, the download
  event and \<^verbatim>\<open>download.cancel()\<close>: an exception before the URL is read
  (\<open>DownloadFails\<close>), none (\<open>Downloaded\<close>), or one raised by the cancel, after the URL
  was stored in the row (\<open>CancelFails\<close>). The queries themselves are taken to return.
\<close>

record box =
  box_x :: real
  box_y :: real
  box_width :: real
  box_height :: real

datatype download_attempt =
    DownloadFails error
  | Downloaded pystr
  | CancelFails pystr error

record row_handle =
  bounding_box :: "box option"
  cells :: "pystr list"
  excel_icon :: "download_attempt option"

text \<open>Step 4 of the loop body: the download link of a validated row.\<close>

fun intercept_download :: "indicator_row \<Rightarrow> download_attempt \<Rightarrow> indicator_row \<times> event list" where
  "intercept_download row_data (DownloadFails e) =
     (row_data, [DownloadFailed (r_indicator row_data) e])"
| "intercept_download row_data (Downloaded url) =
     (row_data\<lparr>r_download_url := url\<rparr>, [])"
| "intercept_download row_data (CancelFails url e) =
     (row_data\<lparr>r_download_url := url\<rparr>, [DownloadFailed (r_indicator row_data) e])"

text \<open>
  The body of \<^verbatim>\<open>for row_handle in candidate_rows\<close>: \<open>None\<close> is a
  \<^verbatim>\<open>continue\<close>, \<open>Some row\<close> the row appended to \<^verbatim>\<open>validated_rows_for_page\<close>.
\<close>

definition process_row :: "bool \<Rightarrow> row_handle \<Rightarrow> indicator_row option \<times> event list" where
  "process_row get_download_links row_handle =
     (case bounding_box row_handle of
        None \<Rightarrow> (None, [])
      | Some b \<Rightarrow>
          if box_height b = 0 then (None, [])
          else if length (cells row_handle) < 8 then (None, [])
          else
            let indicator_text = cells row_handle ! 3 in
            if py_strip indicator_text = [] then (None, [])
            else
              let row_data =
                \<lparr>r_time = get_clean_text (cells row_handle ! 1),
                 r_region = get_clean_text (cells row_handle ! 2),
                 r_indicator = py_strip indicator_text,
                 r_value = get_clean_text (cells row_handle ! 4),
                 r_unit = get_clean_text (cells row_handle ! 5),
                 r_source = get_clean_text (cells row_handle ! 6),
                 r_page_no = get_clean_text (cells row_handle ! 7),
                 r_download_url = []\<rparr>
              in
                if get_download_links then
                  (case excel_icon row_handle of
                     None \<Rightarrow> (Some row_data, [])
                   | Some a \<Rightarrow>
                       (case intercept_download row_data a of (r, l) \<Rightarrow> (Some r, l)))
                else (Some row_data, []))"

text \<open>The loop over the candidate rows of one page: the validated rows and the log.\<close>

fun scrape_rows :: "bool \<Rightarrow> row_handle list \<Rightarrow> indicator_row list \<times> event list" where
  "scrape_rows get_download_links [] = ([], [])"
| "scrape_rows get_download_links (h # hs) =
     (case process_row get_download_links h of
        (None, l) \<Rightarrow>
          (case scrape_rows get_download_links hs of (rs, ls) \<Rightarrow> (rs, l @ ls))
      | (Some r, l) \<Rightarrow>
          (case scrape_rows get_download_links hs of (rs, ls) \<Rightarrow> (r # rs, l @ ls)))"

section \<open>The crawl\<close>

text \<open>Values of a task's parameter dictionary, as \<^verbatim>\<open>task.to_dict()\<close> boxes them.\<close>

datatype pyval = PNone | PBool bool | PInt int | PFloat real | PStr pystr

text \<open>
  The browser is scripted: a site says what each Playwright call that can time out
  answers. \<open>goto\<close> is \<^verbatim>\<open>page.goto(final_url, wait_until="networkidle")\<close>,
  \<open>None\<close> when it returns and \<open>Some e\<close> when it raises \<open>e\<close>. \<open>sort_button\<close> is
  the similarity-sort control: the query raises, finds nothing, or finds a button
  whose click and the wait after it return or raise. \<open>view s i\<close> is the page shown in
  iteration \<open>i\<close> of the page loop: \<open>rows_appear\<close> is
  \<^verbatim>\<open>wait_for_selector('tbody > tr', timeout=10000)\<close>, \<open>candidate_rows\<close> the
  handles of \<^verbatim>\<open>query_selector_all('tbody > tr')\<close>, and \<open>next_button\<close> what the
  following iteration finds for \<^verbatim>\<open>.btn-next:not([disabled])\<close> on this page:
  nothing, or a button whose click and settlement wait return or raise. The URL only
  selects the site, so the crawl takes the site in its place.
\<close>

datatype sort_ctl = SortQueryFails error | SortAbsent | SortPresent "error option"

datatype next_ctl = NextAbsent | NextEnabled "error option"

record page_view =
  rows_appear :: "error option"
  candidate_rows :: "row_handle list"
  next_button :: next_ctl

record site =
  goto :: "error option"
  sort_button :: sort_ctl
  view :: "nat \<Rightarrow> page_view"

text \<open>The literal of the similarity sort preference (three Chinese characters).\<close>

definition similarity :: pystr where
  "similarity = [30456, 20851, 24230]"

text \<open>The sort step of the first page; every exception in it is caught and printed.\<close>

definition click_sort :: "site \<Rightarrow> event list" where
  "click_sort s =
     (case sort_button s of
        SortQueryFails e \<Rightarrow> [SortError e]
      | SortAbsent \<Rightarrow> [SortNotFound]
      | SortPresent None \<Rightarrow> [SortClicking]
      | SortPresent (Some e) \<Rightarrow> [SortClicking, SortError e])"

text \<open>
  The first half of an iteration: load the first page, or advance to the next one.
  \<open>Inr True\<close>: a page is loaded; \<open>Inr False\<close>: the \<^verbatim>\<open>break\<close>; \<open>Inl e\<close>: an
  exception leaves the loop.
\<close>

definition enter_page :: "site \<Rightarrow> pyval \<Rightarrow> nat \<Rightarrow> event list \<times> (error + bool)" where
  "enter_page s sort_by page_num =
     (if page_num = 0 then
        (case goto s of
           Some e \<Rightarrow> ([], Inl e)
         | None \<Rightarrow> (if sort_by = PStr similarity then click_sort s else [], Inr True))
      else
        (case next_button (view s (page_num - 1)) of
           NextAbsent \<Rightarrow> ([NoMorePages page_num], Inr False)
         | NextEnabled (Some e) \<Rightarrow> ([], Inl e)
         | NextEnabled None \<Rightarrow> ([], Inr True)))"

text \<open>
  \<^verbatim>\<open>for page_num in range(maxpages)\<close>, with \<open>n\<close> the iterations left and
  \<open>all_rows\<close> the rows so far. An exception (\<open>Inl\<close>) carries no rows: it leaves the
  function before \<^verbatim>\<open>return all_rows\<close>.
\<close>

fun page_loop ::
  "site \<Rightarrow> int \<Rightarrow> bool \<Rightarrow> pyval \<Rightarrow> nat \<Rightarrow> nat \<Rightarrow> indicator_row list
   \<Rightarrow> event list \<times> (error + indicator_row list)" where
  "page_loop s maxpages get_download_links sort_by page_num 0 all_rows = ([], Inr all_rows)"
| "page_loop s maxpages get_download_links sort_by page_num (Suc n) all_rows =
     (case enter_page s sort_by page_num of
        (l1, Inl e) \<Rightarrow> (Processing (page_num + 1) maxpages # l1, Inl e)
      | (l1, Inr False) \<Rightarrow> (Processing (page_num + 1) maxpages # l1, Inr all_rows)
      | (l1, Inr True) \<Rightarrow>
          (case rows_appear (view s page_num) of
             Some e \<Rightarrow> (Processing (page_num + 1) maxpages # l1, Inl e)
           | None \<Rightarrow>
               (case scrape_rows get_download_links (candidate_rows (view s page_num)) of
                  (validated_rows_for_page, l2) \<Rightarrow>
                    (case page_loop s maxpages get_download_links sort_by (Suc page_num) n
                            (all_rows @ validated_rows_for_page) of
                       (l3, res) \<Rightarrow>
                         (Processing (page_num + 1) maxpages # l1 @ l2
                            @ ValidatorFound (length (candidate_rows (view s page_num)))
                                (length validated_rows_for_page) # l3,
                          res)))))"

text \<open>
  \<^verbatim>\<open>crawl_cnki_indicators\<close>: the browser is launched, the loop runs, and the
  \<^verbatim>\<open>finally\<close> clause closes the browser whether the loop returned or raised.
\<close>

definition crawl_cnki_indicators ::
  "site \<Rightarrow> int \<Rightarrow> bool \<Rightarrow> pyval \<Rightarrow> event list \<times> (error + indicator_row list)" where
  "crawl_cnki_indicators s maxpages get_download_links sort_by =
     (case page_loop s maxpages get_download_links sort_by 0 (nat maxpages) [] of
        (l, res) \<Rightarrow> (BrowserLaunched # l @ [BrowserClosed], res))"

text \<open>Reading the log: iterations started, and pages whose rows were collected.\<close>

fun is_processing :: "event \<Rightarrow> bool" where
  "is_processing (Processing i m) = True"
| "is_processing e = False"

fun is_validator :: "event \<Rightarrow> bool" where
  "is_validator (ValidatorFound c v) = True"
| "is_validator e = False"

definition iterations :: "event list \<Rightarrow> nat" where
  "iterations l = length (filter is_processing l)"

definition pages_scraped :: "event list \<Rightarrow> nat" where
  "pages_scraped l = length (filter is_validator l)"

section \<open>The database\<close>

text \<open>
  A row of the table \<^verbatim>\<open>cnki_indicators\<close>, without the columns the database fills
  in by itself (\<^verbatim>\<open>id\<close>, \<^verbatim>\<open>crawled_at\<close>); the values are those bound to the
  insert statement. The eight columns of a row hold strings, since every row the crawl
  builds has all eight keys; so no column of the key is ever null. The table is the
  list of its rows in insertion order.
\<close>

record stored_row =
  c_zcode :: pyval
  c_indicate_name :: pyval
  c_search_mode_one :: "int option"
  c_area :: pyval
  c_begin_year :: pyval
  c_end_year :: pyval
  c_data_type :: pyval
  c_time :: pystr
  c_region :: pystr
  c_indicator :: pystr
  c_value :: pystr
  c_unit :: pystr
  c_source :: pystr
  c_page_no :: pystr
  c_download_url :: pystr

text \<open>
  The state outside the program: the database file, \<open>None\<close> as long as the table
  does not exist, and the console with the connection events.
\<close>

record world =
  db :: "stored_row list option"
  console :: "event list"

definition emit :: "event list \<Rightarrow> world \<Rightarrow> world" where
  "emit l w = w\<lparr>console := console w @ l\<rparr>"

text \<open>\<^verbatim>\<open>UNIQUE(indicator, region, time, source, page_no, download_url)\<close>.\<close>

definition composite_key ::
  "stored_row \<Rightarrow> pystr \<times> pystr \<times> pystr \<times> pystr \<times> pystr \<times> pystr" where
  "composite_key r = (c_indicator r, c_region r, c_time r, c_source r, c_page_no r, c_download_url r)"

text \<open>
  \<^verbatim>\<open>INSERT OR IGNORE\<close> of one record: a record whose key is in the table is
  skipped and changes nothing; the result is the table and the number of rows changed.
\<close>

definition insert_or_ignore :: "stored_row \<Rightarrow> stored_row list \<Rightarrow> stored_row list \<times> nat" where
  "insert_or_ignore r t =
     (if composite_key r \<in> set (map composite_key t) then (t, 0) else (t @ [r], 1))"

text \<open>\<^verbatim>\<open>cursor.executemany\<close>: the records one after the other; \<^verbatim>\<open>rowcount\<close> is the sum.\<close>

fun executemany :: "stored_row list \<Rightarrow> stored_row list \<Rightarrow> stored_row list \<times> nat" where
  "executemany [] t = (t, 0)"
| "executemany (r # rs) t =
     (case insert_or_ignore r t of
        (t1, n1) \<Rightarrow> (case executemany rs t1 of (t2, n2) \<Rightarrow> (t2, n1 + n2)))"

text \<open>\<^verbatim>\<open>setup_indicator_database\<close>: \<^verbatim>\<open>CREATE TABLE IF NOT EXISTS\<close>.\<close>

definition setup_indicator_database :: "world \<Rightarrow> world" where
  "setup_indicator_database w =
     emit [DbConnect, DbCommit, DbClose, DbInitialised]
       (w\<lparr>db := (case db w of None \<Rightarrow> Some [] | Some t \<Rightarrow> Some t)\<rparr>)"

type_synonym params = "pystr \<rightharpoonup> pyval"

text \<open>\<^verbatim>\<open>params.get(k)\<close>.\<close>

definition dict_get :: "params \<Rightarrow> pystr \<Rightarrow> pyval" where
  "dict_get d k = (case d k of None \<Rightarrow> PNone | Some v \<Rightarrow> v)"

text \<open>
  The third component of \<^verbatim>\<open>meta\<close>:
  \<^verbatim>\<open>int(v) if isinstance(v, (int, str)) and str(v).isdigit() else None\<close>.
  A \<^verbatim>\<open>bool\<close> is an \<^verbatim>\<open>int\<close> for \<^verbatim>\<open>isinstance\<close>.
\<close>

definition search_mode_one_meta :: "pyval \<Rightarrow> error + int option" where
  "search_mode_one_meta v =
     (case v of
        PInt i \<Rightarrow> if py_isdigit (py_str_int i) then Inr (Some i) else Inr None
      | PBool b \<Rightarrow>
          if py_isdigit (str (if b then ''True'' else ''False''))
          then Inr (Some (if b then 1 else 0)) else Inr None
      | PStr s \<Rightarrow>
          if py_isdigit s
          then (case py_int s of Inl e \<Rightarrow> Inl e | Inr i \<Rightarrow> Inr (Some i))
          else Inr None
      | _ \<Rightarrow> Inr None)"

text \<open>One element of \<^verbatim>\<open>records\<close>: \<^verbatim>\<open>meta\<close> followed by the row's eight fields.\<close>

definition mk_record :: "params \<Rightarrow> int option \<Rightarrow> indicator_row \<Rightarrow> stored_row" where
  "mk_record p smo r =
     \<lparr>c_zcode = dict_get p (str ''zcode''),
      c_indicate_name = dict_get p (str ''indicateName''),
      c_search_mode_one = smo,
      c_area = dict_get p (str ''area''),
      c_begin_year = dict_get p (str ''beginYear''),
      c_end_year = dict_get p (str ''endYear''),
      c_data_type = dict_get p (str ''dataType''),
      c_time = r_time r,
      c_region = r_region r,
      c_indicator = r_indicator r,
      c_value = r_value r,
      c_unit = r_unit r,
      c_source = r_source r,
      c_page_no = r_page_no r,
      c_download_url = r_download_url r\<rparr>"

text \<open>
  Binding a Python integer to the statement raises \<^verbatim>\<open>OverflowError\<close> when it does
  not fit SQLite's 64-bit integer; \<^verbatim>\<open>OverflowError\<close> is not an
  \<^verbatim>\<open>sqlite3.Error\<close>.
\<close>

definition sqlite_int_ok :: "int \<Rightarrow> bool" where
  "sqlite_int_ok i = (- (2 ^ 63) \<le> i \<and> i < 2 ^ 63)"

definition bindable :: "pyval \<Rightarrow> bool" where
  "bindable v = (case v of PInt i \<Rightarrow> sqlite_int_ok i | _ \<Rightarrow> True)"

definition meta_bindable :: "params \<Rightarrow> int option \<Rightarrow> bool" where
  "meta_bindable p smo =
     (bindable (dict_get p (str ''zcode'')) \<and> bindable (dict_get p (str ''indicateName''))
      \<and> (case smo of None \<Rightarrow> True | Some i \<Rightarrow> sqlite_int_ok i)
      \<and> bindable (dict_get p (str ''area'')) \<and> bindable (dict_get p (str ''beginYear''))
      \<and> bindable (dict_get p (str ''endYear'')) \<and> bindable (dict_get p (str ''dataType'')))"

text \<open>
  \<^verbatim>\<open>save_indicators_to_db\<close>. The result is \<open>Inr (Some n)\<close> for
  \<^verbatim>\<open>return n\<close>, \<open>Inr None\<close> when the function ends without a
  \<^verbatim>\<open>return\<close> (after \<^verbatim>\<open>except sqlite3.Error\<close>), and \<open>Inl e\<close> when \<open>e\<close>
  leaves it. \<^verbatim>\<open>int\<close> raises while \<^verbatim>\<open>meta\<close> is built, after the connection is
  opened and before the \<^verbatim>\<open>try\<close>. The statement is prepared first, which is where a
  missing table raises \<^verbatim>\<open>sqlite3.OperationalError\<close>; the first record is bound
  next, \<^verbatim>\<open>meta\<close> leading. The \<^verbatim>\<open>finally\<close> clause closes the connection; closed
  without a commit, it leaves the table as it was.
\<close>

definition save_indicators_to_db ::
  "indicator_row list \<Rightarrow> params \<Rightarrow> world \<Rightarrow> (error + nat option) \<times> world" where
  "save_indicators_to_db rows p w =
     (if rows = [] then (Inr (Some 0), w)
      else
        let w1 = emit [DbConnect] w in
        case search_mode_one_meta (dict_get p (str ''searchModeOne'')) of
          Inl e \<Rightarrow> (Inl e, w1)
        | Inr smo \<Rightarrow>
            let records = map (mk_record p smo) rows in
            (case db w1 of
               None \<Rightarrow> (Inr None, emit [DbWriteError, DbClose] w1)
             | Some t \<Rightarrow>
                 if \<not> meta_bindable p smo then (Inl OverflowError, emit [DbClose] w1)
                 else
                   (case executemany records t of
                      (t', rowcount) \<Rightarrow>
                        (Inr (Some rowcount),
                         emit [DbCommit, DbInserted rowcount, DbClose] (w1\<lparr>db := Some t'\<rparr>)))))"

section \<open>The task loop\<close>

text \<open>
  The constants of \<^verbatim>\<open>main\<close>. \<^verbatim>\<open>CLEAR_DATABASE_BEFORE_CRAWL\<close> is
  \<^verbatim>\<open>False\<close>, so the table is never cleared.
\<close>

definition maxpages :: int where
  "maxpages = 5"

definition GET_DOWNLOAD_LINKS :: bool where
  "GET_DOWNLOAD_LINKS = False"

text \<open>
  The body of the task loop for task number \<open>index\<close> with the site its URL leads to.
  \<^verbatim>\<open>except Exception\<close> catches what the crawl or the save raises, and the loop
  goes on with the next task.
\<close>

definition run_task :: "site \<Rightarrow> nat \<Rightarrow> params \<Rightarrow> world \<Rightarrow> world" where
  "run_task s index p w =
     (case crawl_cnki_indicators s maxpages GET_DOWNLOAD_LINKS (dict_get p (str ''sort'')) of
        (l, Inl e) \<Rightarrow> emit (TaskStarted (index + 1) # l @ [TaskError (index + 1) e]) w
      | (l, Inr rows) \<Rightarrow>
          let w1 = emit (TaskStarted (index + 1) # l @ [TaskParsed (length rows)]) w in
          if rows \<noteq> [] then
            (case save_indicators_to_db rows p w1 of
               (Inl e, w2) \<Rightarrow> emit [TaskError (index + 1) e] w2
             | (Inr n, w2) \<Rightarrow> w2)
          else w1)"

text \<open>
  \<^verbatim>\<open>for index, task in tasks_df.iterrows()\<close>: \<open>web i\<close> is the site that task
  \<open>i\<close> meets.
\<close>

fun run_tasks :: "(nat \<Rightarrow> site) \<Rightarrow> nat \<Rightarrow> params list \<Rightarrow> world \<Rightarrow> world" where
  "run_tasks web index [] w = w"
| "run_tasks web index (p # ps) w = run_tasks web (Suc index) ps (run_task (web index) index p w)"

text \<open>
  \<^verbatim>\<open>main\<close>: \<open>tasks_xlsx\<close> is the content of the task file, a dictionary per
  row, or \<open>None\<close> when the file is missing.
\<close>

definition main :: "params list option \<Rightarrow> (nat \<Rightarrow> site) \<Rightarrow> world \<Rightarrow> world" where
  "main tasks_xlsx web w =
     (let w1 = setup_indicator_database w in
      case tasks_xlsx of
        None \<Rightarrow> emit [TasksFileMissing] w1
      | Some tasks \<Rightarrow> emit [AllTasksCompleted] (run_tasks web 0 tasks w1))"

section \<open>The specification's words, and its scenarios\<close>

text \<open>
  The rows the specification says the row validator excludes: no bounding box or a
  height of zero, fewer than eight cells, or a fourth cell of whitespace only.
\<close>

definition excluded_by_spec :: "row_handle \<Rightarrow> bool" where
  "excluded_by_spec h =
     ((case bounding_box h of None \<Rightarrow> True | Some b \<Rightarrow> box_height b = 0)
      \<or> length (cells h) < 8
      \<or> list_all py_isspace (cells h ! 3))"

text \<open>
  Scenario A: ten candidate rows, the second and sixth with a box of height zero, the
  fourth with five cells, the seventh with a blank indicator cell.
\<close>

definition data_row :: "real \<Rightarrow> pystr list \<Rightarrow> row_handle" where
  "data_row ht cs =
     \<lparr>bounding_box = Some \<lparr>box_x = 0, box_y = 0, box_width = 800, box_height = ht\<rparr>,
      cells = cs, excel_icon = None\<rparr>"

definition good_cells :: "pystr list" where
  "good_cells = [str ''1'', str ''2020'', str ''Beijing'', str ''GDP'', str ''36102.6'',
                 str ''100m yuan'', str ''Yearbook'', str ''12'']"

definition scenario_A :: "row_handle list" where
  "scenario_A =
     [data_row 40 good_cells, data_row 0 good_cells, data_row 40 good_cells,
      data_row 40 (take 5 good_cells), data_row 40 good_cells, data_row 0 good_cells,
      data_row 40 (good_cells[3 := str ''  '']), data_row 40 good_cells,
      data_row 40 good_cells, data_row 40 good_cells]"

text \<open>The URL of a captured download event, if the attempt captured one.\<close>

fun captured_url :: "download_attempt \<Rightarrow> pystr option" where
  "captured_url (DownloadFails e) = None"
| "captured_url (Downloaded url) = Some url"
| "captured_url (CancelFails url e) = Some url"

text \<open>The row that extraction builds from a handle, before the download step.\<close>

definition extracted :: "row_handle \<Rightarrow> indicator_row" where
  "extracted h =
     \<lparr>r_time = get_clean_text (cells h ! 1),
      r_region = get_clean_text (cells h ! 2),
      r_indicator = py_strip (cells h ! 3),
      r_value = get_clean_text (cells h ! 4),
      r_unit = get_clean_text (cells h ! 5),
      r_source = get_clean_text (cells h ! 6),
      r_page_no = get_clean_text (cells h ! 7),
      r_download_url = []\<rparr>"


text \<open>The rows that the validator builds from page \<open>i\<close> of a site.\<close>

definition page_rows :: "site \<Rightarrow> bool \<Rightarrow> nat \<Rightarrow> indicator_row list" where
  "page_rows s g i = fst (scrape_rows g (candidate_rows (view s i)))"

text \<open>
  Scenario B: every page shows one valid row; the next-page control is enabled on the
  first and second page and disabled on the third.
\<close>

definition page :: "row_handle list \<Rightarrow> next_ctl \<Rightarrow> page_view" where
  "page hs nxt = \<lparr>rows_appear = None, candidate_rows = hs, next_button = nxt\<rparr>"

definition site_B :: site where
  "site_B =
     \<lparr>goto = None, sort_button = SortAbsent,
      view = (\<lambda>i. page [data_row 40 good_cells] (if i < 2 then NextEnabled None else NextAbsent))\<rparr>"




text \<open>The world before the first run: no table yet, nothing printed.\<close>

definition fresh :: world where
  "fresh = \<lparr>db = None, console = []\<rparr>"

text \<open>
  The values the specification calls digit-like: an integer or a string whose string
  form passes \<^verbatim>\<open>isdigit\<close>.
\<close>

definition digit_like :: "pyval \<Rightarrow> bool" where
  "digit_like v =
     (case v of
        PInt i \<Rightarrow> py_isdigit (py_str_int i)
      | PBool b \<Rightarrow> py_isdigit (str (if b then ''True'' else ''False''))
      | PStr s \<Rightarrow> py_isdigit s
      | _ \<Rightarrow> False)"


text \<open>Scenario E: the rows A and B, which differ in the region.\<close>

definition row_A :: indicator_row where
  "row_A =
     \<lparr>r_time = str ''2020'', r_region = str ''Beijing'', r_indicator = str ''GDP'',
      r_value = str ''36102.6'', r_unit = str ''100m yuan'', r_source = str ''Yearbook'',
      r_page_no = str ''12'', r_download_url = []\<rparr>"


text \<open>The table invariant that the uniqueness constraint stands for.\<close>

definition keys_distinct :: "world \<Rightarrow> bool" where
  "keys_distinct w = (case db w of None \<Rightarrow> True | Some t \<Rightarrow> distinct (map composite_key t))"



section \<open>Text normalisation (C7)\<close>

lemma str_space: "str '' '' = [32]"
  by (simp add: str_def)

lemma isspace_32: "py_isspace 32"
  by (simp add: py_isspace_def)

lemma split_from_words:
  "list_all (\<lambda>c. \<not> py_isspace c) w \<Longrightarrow> list_all word_ok (split_from w s)"
  by (induction s arbitrary: w) (auto simp: word_ok_def)

lemma py_split_words: "list_all word_ok (py_split s)"
  by (simp add: py_split_def split_from_words)

lemma split_from_run:
  "list_all (\<lambda>c. \<not> py_isspace c) v \<Longrightarrow> split_from w (v @ s) = split_from (w @ v) s"
  by (induction v arbitrary: w) auto

lemma split_from_join:
  "list_all word_ok ws \<Longrightarrow> list_all (\<lambda>c. \<not> py_isspace c) w \<Longrightarrow> ws \<noteq> [] \<or> w \<noteq> [] \<Longrightarrow>
   split_from w (py_join [32] ws) = (case ws of [] \<Rightarrow> [w] | v # vs \<Rightarrow> (w @ v) # vs)"
proof (induction "[32::nat]" ws arbitrary: w rule: py_join.induct)
  case 1
  then show ?case by simp
next
  case (2 v)
  then show ?case
    using split_from_run [of v w "[]"] by (simp add: word_ok_def)
next
  case (3 v u us)
  have v: "list_all (\<lambda>c. \<not> py_isspace c) v" "v \<noteq> []"
    using 3 by (simp_all add: word_ok_def)
  have "split_from w (py_join [32] (v # u # us)) = split_from (w @ v) (32 # py_join [32] (u # us))"
    using split_from_run [OF v(1), of w] by simp
  also have "\<dots> = (w @ v) # split_from [] (py_join [32] (u # us))"
    using v by (simp add: isspace_32)
  also have "split_from [] (py_join [32] (u # us)) = u # us"
    using 3 by simp
  finally show ?case by simp
qed

lemma py_split_join: "list_all word_ok ws \<Longrightarrow> py_split (py_join [32] ws) = ws"
proof (cases ws)
  case Nil
  then show ?thesis by (simp add: py_split_def)
next
  case (Cons v vs)
  assume "list_all word_ok ws"
  then show ?thesis
    using Cons split_from_join [of ws "[]"] by (simp add: py_split_def)
qed

lemma join_hd:
  "list_all word_ok ws \<Longrightarrow> ws \<noteq> [] \<Longrightarrow>
   py_join [32] ws \<noteq> [] \<and> \<not> py_isspace (hd (py_join [32] ws)) \<and> \<not> py_isspace (last (py_join [32] ws))"
proof (induction "[32::nat]" ws rule: py_join.induct)
  case 1
  then show ?case by simp
next
  case (2 w)
  then show ?case
    using hd_in_set [of w] last_in_set [of w] by (auto simp: word_ok_def list_all_iff)
next
  case (3 w v vs)
  then show ?case by (cases w) (auto simp: word_ok_def)
qed

lemma strip_id:
  "s \<noteq> [] \<Longrightarrow> \<not> py_isspace (hd s) \<Longrightarrow> \<not> py_isspace (last s) \<Longrightarrow> py_strip s = s"
proof -
  assume a: "s \<noteq> []" "\<not> py_isspace (hd s)" "\<not> py_isspace (last s)"
  have 1: "dropWhile py_isspace s = s"
    using a by (cases s) auto
  have 2: "dropWhile py_isspace (rev s) = rev s"
    using a by (cases s rule: rev_cases) auto
  show ?thesis by (simp add: py_strip_def 1 2)
qed

lemma strip_join: "list_all word_ok ws \<Longrightarrow> py_strip (py_join [32] ws) = py_join [32] ws"
proof (cases ws)
  case Nil
  then show ?thesis by (simp add: py_strip_def)
next
  case (Cons v vs)
  assume "list_all word_ok ws"
  then show ?thesis using Cons join_hd [of ws] strip_id by simp
qed

lemma get_clean_text_join: "get_clean_text t = py_join [32] (py_split t)"
  by (simp add: get_clean_text_def str_space strip_join py_split_words)

lemma last_dropWhile: "dropWhile P xs \<noteq> [] \<Longrightarrow> last (dropWhile P xs) = last xs"
  by (induction xs) (auto split: if_splits)

lemma strip_ends:
  assumes "py_strip s \<noteq> []"
  shows "\<not> py_isspace (hd (py_strip s)) \<and> \<not> py_isspace (last (py_strip s))"
proof -
  define d where "d = dropWhile py_isspace s"
  define e where "e = dropWhile py_isspace (rev d)"
  have se: "py_strip s = rev e" by (simp add: py_strip_def d_def e_def)
  have e: "e \<noteq> []" using assms se by simp
  then have d: "d \<noteq> []" by (auto simp: e_def)
  have 1: "\<not> py_isspace (hd e)" using e hd_dropWhile [of py_isspace "rev d"] by (simp add: e_def)
  have "last e = last (rev d)" using e last_dropWhile [of py_isspace "rev d"] by (simp add: e_def)
  then have "last e = hd d" using d by (simp add: last_rev)
  moreover have "\<not> py_isspace (hd d)" using d hd_dropWhile [of py_isspace s] by (simp add: d_def)
  ultimately have 2: "\<not> py_isspace (last e)" by simp
  show ?thesis using 1 2 e by (simp add: se hd_rev last_rev)
qed

lemma py_strip_idem: "py_strip (py_strip s) = py_strip s"
proof (cases "py_strip s = []")
  case True
  have "py_strip [] = []" by (simp add: py_strip_def)
  then show ?thesis by (simp only: True)
next
  case False
  then show ?thesis using strip_ends [OF False] by (simp add: strip_id)
qed

text \<open>
  C7. Text normalisation (collapse whitespace runs to single spaces, then trim) is
  idempotent: normalising a normalised string returns it unchanged.
\<close>

theorem C7_get_clean_text_idempotent:
  "get_clean_text (get_clean_text s) = get_clean_text s"
  by (simp add: get_clean_text_join py_split_join py_split_words)

section \<open>The row validator (C1)\<close>

lemma strip_empty_iff: "(py_strip t = []) = list_all py_isspace t"
proof (cases "dropWhile py_isspace t = []")
  case True
  then have "py_strip t = []"
    by (simp only: py_strip_def rev.simps dropWhile.simps)
  moreover have "list_all py_isspace t"
    using True by (simp add: list_all_iff)
  ultimately show ?thesis by simp
next
  case False
  define d where "d = dropWhile py_isspace t"
  have d: "hd d \<in> set d" "\<not> py_isspace (hd d)"
    using False hd_dropWhile [of py_isspace t] by (simp_all add: d_def)
  have "hd d \<in> set (rev d)" using d by simp
  then have "dropWhile py_isspace (rev d) \<noteq> []"
    using d(2) by (metis dropWhile_eq_Nil_conv)
  then have 1: "py_strip t \<noteq> []" by (simp add: py_strip_def d_def)
  have "hd d \<in> set t" using d(1) by (auto simp: d_def dest: set_dropWhileD)
  then have 2: "\<not> list_all py_isspace t" using d(2) by (auto simp: list_all_iff)
  show ?thesis using 1 2 by simp
qed

lemma process_row_None: "(fst (process_row g h) = None) = excluded_by_spec h"
  by (auto simp: process_row_def excluded_by_spec_def strip_empty_iff Let_def
           split: option.splits prod.splits)

lemma scrape_rows_map_filter:
  "fst (scrape_rows g hs) = List.map_filter (\<lambda>h. fst (process_row g h)) hs"
  by (induction hs) (auto split: prod.splits option.splits)

lemma length_map_filter: "length (List.map_filter f xs) = length (filter (\<lambda>x. f x \<noteq> None) xs)"
  by (induction xs) (auto split: option.splits)

text \<open>
  C1. The row validator excludes exactly the rows with no bounding box or height zero,
  with fewer than eight cells, or with a whitespace-only fourth cell, and builds a row
  for every other candidate, in order; so the number of rows of a page is the number
  of candidates that are not excluded.
\<close>

theorem C1_row_validator:
  "(fst (process_row g h) = None) = excluded_by_spec h
   \<and> fst (scrape_rows g hs) = List.map_filter (\<lambda>h. fst (process_row g h)) hs
   \<and> length (fst (scrape_rows g hs)) = length (filter (\<lambda>h. \<not> excluded_by_spec h) hs)"
  by (simp add: process_row_None scrape_rows_map_filter length_map_filter)

lemma excl_simps:
  "excluded_by_spec (data_row ht cs) = (ht = 0 \<or> length cs < 8 \<or> list_all py_isspace (cs ! 3))"
  by (simp add: excluded_by_spec_def data_row_def)

text \<open>Scenario A: of the ten candidates, six rows are built.\<close>

theorem C1_scenario_A:
  "length scenario_A = 10
   \<and> length (filter (\<lambda>h. \<not> excluded_by_spec h) scenario_A) = 6
   \<and> length (fst (scrape_rows False scenario_A)) = 6"
  using C1_row_validator [of False "hd scenario_A" scenario_A, THEN conjunct2, THEN conjunct2]
  by (simp add: scenario_A_def excl_simps good_cells_def str_def py_isspace_def)

section \<open>Extraction and the download step (C3, C6, C8)\<close>

lemma process_row_included:
  "\<not> excluded_by_spec h \<Longrightarrow>
   process_row g h =
     (if g then (case excel_icon h of None \<Rightarrow> (Some (extracted h), [])
                 | Some a \<Rightarrow> (Some (fst (intercept_download (extracted h) a)),
                               snd (intercept_download (extracted h) a)))
      else (Some (extracted h), []))"
  by (auto simp: process_row_def excluded_by_spec_def extracted_def strip_empty_iff Let_def
           split: option.splits prod.splits)


lemma intercept_url:
  "r_download_url (fst (intercept_download r a)) =
     (case captured_url a of None \<Rightarrow> r_download_url r | Some u \<Rightarrow> u)"
  by (cases a) simp_all




text \<open>
  What does hold of every row the validator builds: the six fields other than the
  indicator are normalised, and the indicator is not empty and has no whitespace at
  its ends.
\<close>

lemma extracted_row_fields:
  assumes "fst (process_row g h) = Some r"
  shows "get_clean_text (r_time r) = r_time r \<and> get_clean_text (r_region r) = r_region r
    \<and> get_clean_text (r_value r) = r_value r \<and> get_clean_text (r_unit r) = r_unit r
    \<and> get_clean_text (r_source r) = r_source r \<and> get_clean_text (r_page_no r) = r_page_no r
    \<and> r_indicator r \<noteq> [] \<and> py_strip (r_indicator r) = r_indicator r"
proof -
  have ne: "\<not> excluded_by_spec h" using assms process_row_None [of g h] by simp
  have i: "py_strip (cells h ! 3) \<noteq> []"
    using ne by (simp add: excluded_by_spec_def strip_empty_iff)
  have idem: "get_clean_text (get_clean_text t) = get_clean_text t" for t
    by (simp add: get_clean_text_join py_split_join py_split_words)
  have x: "get_clean_text (r_time (extracted h)) = r_time (extracted h)
    \<and> get_clean_text (r_region (extracted h)) = r_region (extracted h)
    \<and> get_clean_text (r_value (extracted h)) = r_value (extracted h)
    \<and> get_clean_text (r_unit (extracted h)) = r_unit (extracted h)
    \<and> get_clean_text (r_source (extracted h)) = r_source (extracted h)
    \<and> get_clean_text (r_page_no (extracted h)) = r_page_no (extracted h)
    \<and> r_indicator (extracted h) \<noteq> [] \<and> py_strip (r_indicator (extracted h)) = r_indicator (extracted h)"
    using i by (simp add: extracted_def idem py_strip_idem)
  have same: "r = extracted h \<or> (\<exists>a. r = fst (intercept_download (extracted h) a))"
    using assms by (auto simp: process_row_included [OF ne] split: if_splits option.splits)
  have keep: "r_time (fst (intercept_download q a)) = r_time q
      \<and> r_region (fst (intercept_download q a)) = r_region q
      \<and> r_indicator (fst (intercept_download q a)) = r_indicator q
      \<and> r_value (fst (intercept_download q a)) = r_value q
      \<and> r_unit (fst (intercept_download q a)) = r_unit q
      \<and> r_source (fst (intercept_download q a)) = r_source q
      \<and> r_page_no (fst (intercept_download q a)) = r_page_no q" for q a
    by (cases a) simp_all
  show ?thesis using same x keep by auto
qed

text \<open>
  C3 (the code departs from it). The claim says that the indicator field, like the
  other six, has its inner whitespace runs collapsed. The six others go through
  \<open>get_clean_text\<close>; the indicator is only stripped, so two blanks inside it stay.
\<close>

theorem C3_indicator_keeps_inner_whitespace:
  "map_option r_indicator (fst (process_row False (data_row 40 (good_cells[3 := str ''GDP  total''])))) =
     Some (str ''GDP  total'')
   \<and> get_clean_text (str ''GDP  total'') = str ''GDP total''"
  by (simp add: process_row_def data_row_def good_cells_def str_def py_strip_def py_isspace_def
        get_clean_text_def py_split_def Let_def)




section \<open>The page loop (C4)\<close>

lemma enter_page_quiet:
  "filter is_processing (fst (enter_page s sb p)) = []"
  "filter is_validator (fst (enter_page s sb p)) = []"
  by (auto simp: enter_page_def click_sort_def split: option.splits next_ctl.splits sort_ctl.splits)

lemma intercept_quiet:
  "intercept_download r a = (r', l) \<Longrightarrow> filter is_processing l = [] \<and> filter is_validator l = []"
  by (cases a) auto

lemma process_row_quiet:
  "filter is_processing (snd (process_row g h)) = []"
  "filter is_validator (snd (process_row g h)) = []"
  by (auto simp: process_row_def Let_def split: option.splits prod.splits dest: intercept_quiet)

lemma scrape_rows_quiet:
  "filter is_processing (snd (scrape_rows g hs)) = []"
  "filter is_validator (snd (scrape_rows g hs)) = []"
proof (induction hs)
  case Nil
  { case 1 show ?case by simp }
  { case 2 show ?case by simp }
next
  case (Cons h hs)
  { case 1 show ?case
      using Cons(1) process_row_quiet(1) [of g h]
      by (cases "process_row g h"; cases "scrape_rows g hs") (auto split: option.splits) }
  { case 2 show ?case
      using Cons(2) process_row_quiet(2) [of g h]
      by (cases "process_row g h"; cases "scrape_rows g hs") (auto split: option.splits) }
qed

lemma page_loop_bounded:
  "iterations (fst (page_loop s m g sb p n acc)) \<le> n
   \<and> pages_scraped (fst (page_loop s m g sb p n acc)) \<le> n"
proof (induction n arbitrary: p acc)
  case 0
  then show ?case by (simp add: iterations_def pages_scraped_def)
next
  case (Suc n)
  obtain l1 res where e: "enter_page s sb p = (l1, res)" by (cases "enter_page s sb p")
  have q1: "filter is_processing l1 = []" "filter is_validator l1 = []"
    using enter_page_quiet [of s sb p] e by simp_all
  obtain vs l2 where sc: "scrape_rows g (candidate_rows (view s p)) = (vs, l2)"
    by (cases "scrape_rows g (candidate_rows (view s p))")
  have q2: "filter is_processing l2 = []" "filter is_validator l2 = []"
    using scrape_rows_quiet [of g "candidate_rows (view s p)"] sc by simp_all
  obtain l3 r3 where rec: "page_loop s m g sb (Suc p) n (acc @ vs) = (l3, r3)"
    by (cases "page_loop s m g sb (Suc p) n (acc @ vs)")
  have ih: "iterations l3 \<le> n \<and> pages_scraped l3 \<le> n"
    using Suc.IH [of "Suc p" "acc @ vs"] rec by simp
  show ?case
    using e q1 sc q2 rec ih
    by (auto simp: iterations_def pages_scraped_def split: sum.splits bool.splits option.splits)
qed

lemma page_loop_stops:
  assumes "1 \<le> p" and "p \<le> k" and "k - p < n"
    and "\<forall>i. p \<le> i \<and> i < k \<longrightarrow> rows_appear (view s i) = None"
    and "\<forall>i. p \<le> i \<and> i < k \<longrightarrow> next_button (view s (i - 1)) = NextEnabled None"
    and "next_button (view s (k - 1)) = NextAbsent"
  shows "snd (page_loop s m g sb p n acc) = Inr (acc @ concat (map (page_rows s g) [p..<k]))
         \<and> pages_scraped (fst (page_loop s m g sb p n acc)) = k - p
         \<and> iterations (fst (page_loop s m g sb p n acc)) = k - p + 1
         \<and> NoMorePages k \<in> set (fst (page_loop s m g sb p n acc))"
  using assms
proof (induction n arbitrary: p acc)
  case 0
  then show ?case by simp
next
  case (Suc n)
  show ?case
  proof (cases "p = k")
    case True
    then have "enter_page s sb p = ([NoMorePages k], Inr False)"
      using Suc.prems by (simp add: enter_page_def)
    then show ?thesis
      using True by (simp add: iterations_def pages_scraped_def)
  next
    case False
    then have lt: "p < k" using Suc.prems by simp
    have e: "enter_page s sb p = ([], Inr True)"
      using Suc.prems lt by (simp add: enter_page_def)
    have ra: "rows_appear (view s p) = None" using Suc.prems lt by simp
    obtain vs l2 where sc: "scrape_rows g (candidate_rows (view s p)) = (vs, l2)"
      by (cases "scrape_rows g (candidate_rows (view s p))")
    have q2: "filter is_processing l2 = []" "filter is_validator l2 = []"
      using scrape_rows_quiet [of g "candidate_rows (view s p)"] sc by simp_all
    have vs: "vs = page_rows s g p" using sc by (simp add: page_rows_def)
    obtain l3 r3 where rec: "page_loop s m g sb (Suc p) n (acc @ vs) = (l3, r3)"
      by (cases "page_loop s m g sb (Suc p) n (acc @ vs)")
    have ih: "r3 = Inr ((acc @ vs) @ concat (map (page_rows s g) [Suc p..<k]))
         \<and> pages_scraped l3 = k - Suc p \<and> iterations l3 = k - Suc p + 1 \<and> NoMorePages k \<in> set l3"
      using Suc.IH [of "Suc p" "acc @ vs"] Suc.prems lt rec by simp
    have up: "[p..<k] = p # [Suc p..<k]" using lt by (simp add: upt_conv_Cons)
    show ?thesis
      using e ra sc q2 rec ih lt
      by (simp add: iterations_def pages_scraped_def up vs)
  qed
qed

text \<open>
  C4. The page loop starts at most \<open>pageBudget\<close> iterations and collects rows from at
  most \<open>pageBudget\<close> pages, whatever the next-page control reports. If the pages load
  and the control is missing or disabled on page \<open>k\<close>, with \<open>k\<close> below the budget,
  the crawl returns the rows of the first \<open>k\<close> pages: iteration \<open>k + 1\<close> finds no
  control and leaves the loop.
\<close>

theorem C4_page_budget:
  "iterations (fst (crawl_cnki_indicators s m g sb)) \<le> nat m
   \<and> pages_scraped (fst (crawl_cnki_indicators s m g sb)) \<le> nat m
   \<and> (1 \<le> k \<and> int k < m \<and> goto s = None
        \<and> (\<forall>i<k. rows_appear (view s i) = None)
        \<and> (\<forall>i<k - 1. next_button (view s i) = NextEnabled None)
        \<and> next_button (view s (k - 1)) = NextAbsent
      \<longrightarrow> snd (crawl_cnki_indicators s m g sb) = Inr (concat (map (page_rows s g) [0..<k]))
          \<and> pages_scraped (fst (crawl_cnki_indicators s m g sb)) = k
          \<and> iterations (fst (crawl_cnki_indicators s m g sb)) = k + 1
          \<and> NoMorePages k \<in> set (fst (crawl_cnki_indicators s m g sb)))"
proof -
  obtain l res where pl: "page_loop s m g sb 0 (nat m) [] = (l, res)"
    by (cases "page_loop s m g sb 0 (nat m) []")
  have b: "iterations l \<le> nat m \<and> pages_scraped l \<le> nat m"
    using page_loop_bounded [of s m g sb 0 "nat m" "[]"] pl by simp
  have c: "fst (crawl_cnki_indicators s m g sb) = BrowserLaunched # l @ [BrowserClosed]"
    "snd (crawl_cnki_indicators s m g sb) = res"
    using pl by (simp_all add: crawl_cnki_indicators_def)
  have cnt: "iterations (BrowserLaunched # l @ [BrowserClosed]) = iterations l"
    "pages_scraped (BrowserLaunched # l @ [BrowserClosed]) = pages_scraped l"
    by (simp_all add: iterations_def pages_scraped_def)
  have stop: "res = Inr (concat (map (page_rows s g) [0..<k])) \<and> pages_scraped l = k
      \<and> iterations l = k + 1 \<and> NoMorePages k \<in> set l"
    if h: "1 \<le> k" "int k < m" "goto s = None" "\<forall>i<k. rows_appear (view s i) = None"
      "\<forall>i<k - 1. next_button (view s i) = NextEnabled None"
      "next_button (view s (k - 1)) = NextAbsent"
  proof -
    obtain n where n: "nat m = Suc n" "k - 1 < n"
      using h(1,2) by (cases "nat m") auto
    obtain l1 where e: "enter_page s sb 0 = (l1, Inr True)"
      using h(3) by (simp add: enter_page_def)
    have q1: "filter is_processing l1 = []" "filter is_validator l1 = []"
      using enter_page_quiet [of s sb 0] e by simp_all
    have ra: "rows_appear (view s 0) = None" using h(1,4) by simp
    obtain vs l2 where sc: "scrape_rows g (candidate_rows (view s 0)) = (vs, l2)"
      by (cases "scrape_rows g (candidate_rows (view s 0))")
    have q2: "filter is_processing l2 = []" "filter is_validator l2 = []"
      using scrape_rows_quiet [of g "candidate_rows (view s 0)"] sc by simp_all
    have vs: "vs = page_rows s g 0" using sc by (simp add: page_rows_def)
    obtain l3 r3 where rec: "page_loop s m g sb (Suc 0) n ([] @ vs) = (l3, r3)"
      by (cases "page_loop s m g sb (Suc 0) n ([] @ vs)")
    have a5: "\<forall>i. 1 \<le> i \<and> i < k \<longrightarrow> next_button (view s (i - 1)) = NextEnabled None"
      using h(5) by auto
    have ih: "r3 = Inr (([] @ vs) @ concat (map (page_rows s g) [1..<k]))
         \<and> pages_scraped l3 = k - 1 \<and> iterations l3 = k - 1 + 1 \<and> NoMorePages k \<in> set l3"
      using page_loop_stops [where p = 1 and k = k and n = n and s = s and sb = sb and m = m and g = g and acc = "[] @ vs"] h(1,4,6) a5 n(2) rec by simp
    have up: "[0..<k] = 0 # [1..<k]" using h(1) by (simp add: upt_conv_Cons)
    show ?thesis
      using pl n(1) e q1 ra sc q2 rec ih h(1)
      by (auto simp: iterations_def pages_scraped_def up vs)
  qed
  show ?thesis using b c cnt stop by simp
qed

text \<open>Scenario B: a budget of five pages, the control disabled on the third page.\<close>

theorem C4_scenario_B:
  "snd (crawl_cnki_indicators site_B 5 False PNone) =
     Inr [extracted (data_row 40 good_cells), extracted (data_row 40 good_cells),
          extracted (data_row 40 good_cells)]
   \<and> pages_scraped (fst (crawl_cnki_indicators site_B 5 False PNone)) = 3
   \<and> iterations (fst (crawl_cnki_indicators site_B 5 False PNone)) \<le> 5"
proof -
  have good: "process_row False (data_row 40 good_cells) = (Some (extracted (data_row 40 good_cells)), [])"
    by (simp add: process_row_included excl_simps good_cells_def str_def py_isspace_def)
  have rows: "page_rows site_B False i = [extracted (data_row 40 good_cells)]" for i
    by (simp add: page_rows_def site_B_def page_def good)
  have h: "1 \<le> (3::nat) \<and> int 3 < 5 \<and> goto site_B = None
        \<and> (\<forall>i<3. rows_appear (view site_B i) = None)
        \<and> (\<forall>i<3 - 1. next_button (view site_B i) = NextEnabled None)
        \<and> next_button (view site_B (3 - 1)) = NextAbsent"
    by (simp add: site_B_def page_def)
  have up: "[0..<3] = [0, 1, 2::nat]" by (simp add: upt_conv_Cons)
  show ?thesis
    using C4_page_budget [of site_B 5 False PNone 3] h
    by (simp add: rows up)
qed

section \<open>The crawl on the scenario sites, and failed tasks (C8, C2)\<close>


lemma page_loop_raises_only_fatal:
  "snd (page_loop s m g sb p n acc) = Inl e \<Longrightarrow>
   goto s = Some e \<or> (\<exists>i. rows_appear (view s i) = Some e)
   \<or> (\<exists>i. next_button (view s i) = NextEnabled (Some e))"
proof (induction n arbitrary: p acc)
  case 0
  then show ?case by simp
next
  case (Suc n)
  obtain l1 res where e: "enter_page s sb p = (l1, res)" by (cases "enter_page s sb p")
  show ?case
  proof (cases res)
    case (Inl e')
    then have "e' = e" using Suc.prems e by simp
    then show ?thesis
      using e Inl by (auto simp: enter_page_def split: if_splits option.splits next_ctl.splits)
  next
    case (Inr b)
    show ?thesis
    proof (cases "b \<and> rows_appear (view s p) = None")
      case False
      then show ?thesis using Suc.prems e Inr by (auto split: bool.splits option.splits)
    next
      case True
      obtain vs l2 where sc: "scrape_rows g (candidate_rows (view s p)) = (vs, l2)"
        by (cases "scrape_rows g (candidate_rows (view s p))")
      have "snd (page_loop s m g sb (Suc p) n (acc @ vs)) = Inl e"
        using Suc.prems e Inr True sc by (auto split: prod.splits)
      then show ?thesis by (rule Suc.IH)
    qed
  qed
qed






section \<open>The database (C5, C9, C10)\<close>


lemma insert_or_ignore_facts:
  assumes "insert_or_ignore r t = (t', n)"
  shows "n = length t' - length t" and "\<exists>new. t' = t @ new"
    and "set (map composite_key t') = insert (composite_key r) (set (map composite_key t))"
    and "distinct (map composite_key t) \<Longrightarrow> distinct (map composite_key t')"
    and "composite_key r \<in> set (map composite_key t) \<Longrightarrow> t' = t \<and> n = 0"
  using assms by (auto simp: insert_or_ignore_def split: if_splits)

lemma executemany_facts:
  assumes "executemany rs t = (t', n)"
  shows "n = length t' - length t \<and> (\<exists>new. t' = t @ new)
    \<and> set (map composite_key t') = set (map composite_key rs) \<union> set (map composite_key t)
    \<and> (distinct (map composite_key t) \<longrightarrow> distinct (map composite_key t'))
    \<and> (set (map composite_key rs) \<subseteq> set (map composite_key t) \<longrightarrow> t' = t \<and> n = 0)"
  using assms
proof (induction rs arbitrary: t t' n)
  case Nil
  then show ?case by simp
next
  case (Cons r rs)
  obtain t1 n1 where i: "insert_or_ignore r t = (t1, n1)" by (cases "insert_or_ignore r t")
  obtain t2 n2 where e: "executemany rs t1 = (t2, n2)" by (cases "executemany rs t1")
  have r: "t' = t2" "n = n1 + n2" using Cons.prems i e by simp_all
  note f1 = insert_or_ignore_facts [OF i]
  note f2 = Cons.IH [OF e]
  have a: "n = length t' - length t" using f1(1,2) f2 r by auto
  have b: "\<exists>new. t' = t @ new" using f1(2) f2 r by auto
  have c: "set (map composite_key t') = set (map composite_key (r # rs)) \<union> set (map composite_key t)"
    using f1(3) f2 r by auto
  have d: "distinct (map composite_key t) \<longrightarrow> distinct (map composite_key t')"
    using f1(4) f2 r by simp
  have "t' = t \<and> n = 0" if s: "set (map composite_key (r # rs)) \<subseteq> set (map composite_key t)"
  proof -
    have 1: "t1 = t \<and> n1 = 0" using f1(5) s by simp
    then have "t2 = t1 \<and> n2 = 0" using f2 s by simp
    then show ?thesis using 1 r by simp
  qed
  then show ?case using a b c d by blast
qed


lemma db_emit: "db (emit l w) = db w"
  by (simp add: emit_def)

lemma emit_keys_distinct: "keys_distinct (emit l w) = keys_distinct w"
  by (simp add: keys_distinct_def db_emit)

lemma save_cases:
  "save_indicators_to_db rows p w = (res, w') \<Longrightarrow>
   (\<exists>l. w' = emit l w) \<or>
   (\<exists>l l' t t' n smo. db w = Some t \<and> executemany (map (mk_record p smo) rows) t = (t', n)
       \<and> res = Inr (Some n) \<and> w' = emit l' ((emit l w)\<lparr>db := Some t'\<rparr>))"
proof (cases "rows = []")
  case True
  assume "save_indicators_to_db rows p w = (res, w')"
  then have "w' = emit [] w" using True by (simp add: save_indicators_to_db_def emit_def)
  then show ?thesis by blast
next
  case ne: False
  assume s: "save_indicators_to_db rows p w = (res, w')"
  show ?thesis
  proof (cases "search_mode_one_meta (dict_get p (str ''searchModeOne''))")
    case (Inl e)
    then have "w' = emit [DbConnect] w" using s ne by (simp add: save_indicators_to_db_def)
    then show ?thesis by blast
  next
    case (Inr smo)
    show ?thesis
    proof (cases "db w")
      case None
      then have "w' = emit [DbWriteError, DbClose] (emit [DbConnect] w)"
        using s ne Inr by (simp add: save_indicators_to_db_def db_emit)
      then have "w' = emit [DbConnect, DbWriteError, DbClose] w" by (simp add: emit_def)
      then show ?thesis by blast
    next
      case (Some t)
      show ?thesis
      proof (cases "meta_bindable p smo")
        case False
        then have "w' = emit [DbClose] (emit [DbConnect] w)"
          using s ne Inr Some by (simp add: save_indicators_to_db_def db_emit)
        then have "w' = emit [DbConnect, DbClose] w" by (simp add: emit_def)
        then show ?thesis by blast
      next
        case True
        obtain t' n where e: "executemany (map (mk_record p smo) rows) t = (t', n)"
          by (cases "executemany (map (mk_record p smo) rows) t")
        have "res = Inr (Some n) \<and>
              w' = emit [DbCommit, DbInserted n, DbClose] ((emit [DbConnect] w)\<lparr>db := Some t'\<rparr>)"
          using s ne Inr Some True e by (simp add: save_indicators_to_db_def db_emit)
        then show ?thesis using Some e by blast
      qed
    qed
  qed
qed

lemma save_keeps_keys_distinct:
  assumes "keys_distinct w" and "save_indicators_to_db rows p w = (res, w')"
  shows "keys_distinct w'"
  using save_cases [OF assms(2)]
proof
  assume "\<exists>l. w' = emit l w"
  then show ?thesis using assms(1) by (auto simp: emit_keys_distinct)
next
  assume "\<exists>l l' t t' n smo. db w = Some t \<and> executemany (map (mk_record p smo) rows) t = (t', n)
       \<and> res = Inr (Some n) \<and> w' = emit l' ((emit l w)\<lparr>db := Some t'\<rparr>)"
  then obtain l l' t t' n smo where h: "db w = Some t"
    "executemany (map (mk_record p smo) rows) t = (t', n)"
    "w' = emit l' ((emit l w)\<lparr>db := Some t'\<rparr>)" by blast
  have "distinct (map composite_key t)" using assms(1) h(1) by (simp add: keys_distinct_def)
  then have "distinct (map composite_key t')" using executemany_facts [OF h(2)] by simp
  then show ?thesis by (simp add: h(3) keys_distinct_def db_emit)
qed

lemma run_task_keeps_keys_distinct:
  assumes "keys_distinct w"
  shows "keys_distinct (run_task s i p w)"
proof -
  obtain l res where c: "crawl_cnki_indicators s maxpages GET_DOWNLOAD_LINKS (dict_get p (str ''sort'')) = (l, res)"
    by (cases "crawl_cnki_indicators s maxpages GET_DOWNLOAD_LINKS (dict_get p (str ''sort''))")
  show ?thesis
  proof (cases res)
    case (Inl e)
    then show ?thesis using c assms by (simp add: run_task_def emit_keys_distinct)
  next
    case (Inr rows)
    define w1 where "w1 = emit (TaskStarted (i + 1) # l @ [TaskParsed (length rows)]) w"
    have k1: "keys_distinct w1" using assms by (simp add: w1_def emit_keys_distinct)
    obtain x w2 where sv: "save_indicators_to_db rows p w1 = (x, w2)"
      by (cases "save_indicators_to_db rows p w1")
    have k2: "keys_distinct w2" using save_keeps_keys_distinct [OF k1 sv] .
    have "run_task s i p w = (if rows \<noteq> [] then (case x of Inl e \<Rightarrow> emit [TaskError (i + 1) e] w2 | Inr n \<Rightarrow> w2) else w1)"
      using c Inr sv by (simp add: run_task_def w1_def Let_def split: sum.splits)
    then show ?thesis using k1 k2 by (simp add: emit_keys_distinct split: sum.splits)
  qed
qed

lemma run_tasks_keeps_keys_distinct:
  "keys_distinct w \<Longrightarrow> keys_distinct (run_tasks web i ps w)"
  by (induction ps arbitrary: i w) (simp_all add: run_task_keeps_keys_distinct)

lemma main_keys_distinct: "keys_distinct w \<Longrightarrow> keys_distinct (main tasks web w)"
proof -
  assume "keys_distinct w"
  then have "keys_distinct (setup_indicator_database w)"
    by (cases "db w") (simp_all add: setup_indicator_database_def keys_distinct_def db_emit)
  then show ?thesis
    by (cases tasks) (simp_all add: main_def Let_def emit_keys_distinct run_tasks_keeps_keys_distinct)
qed

lemma search_mode_not_digit_like:
  "\<not> digit_like v \<Longrightarrow> search_mode_one_meta v = Inr None"
  by (cases v) (simp_all add: digit_like_def search_mode_one_meta_def)

lemma search_mode_int: "digit_like (PInt i) \<Longrightarrow> search_mode_one_meta (PInt i) = Inr (Some i)"
  by (simp add: digit_like_def search_mode_one_meta_def)




text \<open>
  C9 (the code departs from it). A search mode that is not digit-like is stored as
  absent and never makes the save fail, as the claim says (lemma
  \<open>search_mode_not_digit_like\<close>). But the string of the one character superscript two
  passes \<^verbatim>\<open>isdigit\<close>, and \<^verbatim>\<open>int\<close> raises \<^verbatim>\<open>ValueError\<close> on it: nothing is
  stored. And the digit-like integer \<open>2 ^ 63\<close> does not fit the column: binding it
  raises \<^verbatim>\<open>OverflowError\<close>.
\<close>

theorem C9_digit_like_not_stored:
  "digit_like (PStr [178])
   \<and> save_indicators_to_db [row_A] [str ''searchModeOne'' \<mapsto> PStr [178]] \<lparr>db = Some [], console = []\<rparr>
       = (Inl ValueError, \<lparr>db = Some [], console = [DbConnect]\<rparr>)
   \<and> digit_like (PInt (2 ^ 63))
   \<and> save_indicators_to_db [row_A] [str ''searchModeOne'' \<mapsto> PInt (2 ^ 63)] \<lparr>db = Some [], console = []\<rparr>
       = (Inl OverflowError, \<lparr>db = Some [], console = [DbConnect, DbClose]\<rparr>)"
proof -
  have d: "py_isdigit [178]"
    by (simp add: py_isdigit_def py_isdigit_char_def other_digit_ranges_def decimal_ranges_def
          in_range_def)
  have i: "py_int [178] = Inl ValueError"
    by (simp add: py_int_def py_decimal_def decimal_ranges_def in_range_def)
  have 1: "digit_like (PStr [178])" using d by (simp add: digit_like_def)
  have 2: "save_indicators_to_db [row_A] [str ''searchModeOne'' \<mapsto> PStr [178]] \<lparr>db = Some [], console = []\<rparr>
       = (Inl ValueError, \<lparr>db = Some [], console = [DbConnect]\<rparr>)"
    by (simp add: save_indicators_to_db_def dict_get_def search_mode_one_meta_def d i emit_def)
  have big: "py_isdigit (py_str_int (2 ^ 63))"
    by (simp add: py_str_int_def nat_digits.simps py_isdigit_def py_isdigit_char_def
          decimal_ranges_def in_range_def)
  have 3: "digit_like (PInt (2 ^ 63))" using big by (simp add: digit_like_def)
  have smo: "search_mode_one_meta (PInt (2 ^ 63)) = Inr (Some (2 ^ 63))"
    using big by (simp add: search_mode_one_meta_def)
  have nb: "\<not> meta_bindable [str ''searchModeOne'' \<mapsto> PInt (2 ^ 63)] (Some (2 ^ 63))"
    by (simp add: meta_bindable_def sqlite_int_ok_def)
  have 4: "save_indicators_to_db [row_A] [str ''searchModeOne'' \<mapsto> PInt (2 ^ 63)] \<lparr>db = Some [], console = []\<rparr>
       = (Inl OverflowError, \<lparr>db = Some [], console = [DbConnect, DbClose]\<rparr>)"
    using nb smo by (simp add: save_indicators_to_db_def dict_get_def emit_def)
  show ?thesis using 1 2 3 4 by simp
qed

text \<open>
  C10. Saving no rows returns 0 and leaves the world as it is: no connection is opened.
  When the insert raises a database error (here: the table does not exist), the save
  prints the error, closes the connection and returns without a count, and the
  database is unchanged.
\<close>

theorem C10_empty_batch_and_database_error:
  "save_indicators_to_db [] p w = (Inr (Some 0), w)
   \<and> (rows \<noteq> [] \<and> db w = None
        \<and> search_mode_one_meta (dict_get p (str ''searchModeOne'')) = Inr smo
      \<longrightarrow> save_indicators_to_db rows p w = (Inr None, emit [DbConnect, DbWriteError, DbClose] w)
          \<and> db (snd (save_indicators_to_db rows p w)) = db w)"
  by (simp add: save_indicators_to_db_def db_emit) (simp add: emit_def)

theorem C10_witness:
  "save_indicators_to_db [row_A] Map.empty fresh =
     (Inr None, \<lparr>db = None, console = [DbConnect, DbWriteError, DbClose]\<rparr>)
   \<and> save_indicators_to_db [] Map.empty fresh = (Inr (Some 0), fresh)"
proof -
  have smo: "search_mode_one_meta (dict_get Map.empty (str ''searchModeOne'')) = Inr None"
    by (simp add: dict_get_def search_mode_one_meta_def)
  show ?thesis
    using C10_empty_batch_and_database_error [of Map.empty fresh "[row_A]" None] smo
    by (simp add: fresh_def emit_def)
qed

end
